theory Spec2Isabelle
  imports Complex_Main "HOL-Library.Word"
begin

section \<open>Environmental monitor with keypad lock (Documentacion.cpp)\<close>

text \<open>
  A shallow embedding of the sketch: the global variables of the program and the part of
  the board it talks to are one record, every function of the sketch is a function on
  that record, and every call of a driver (LCD, LEDs, buzzer, \<open>delay\<close>) is appended to
  a trace, in the order of the source.
\<close>

subsection \<open>Floating-point values, as far as the sketch compares them\<close>

text \<open>
  The sketch only compares \<open>float\<close> values with the integer constants 10, 40, 5, 60, 700
  and 200, which are exact as floats. A finite float is the real number it denotes; the
  comparisons of IEEE 754 are false as soon as one side is NaN.
\<close>

datatype cfloat = NaN | MInf | Fin real | PInf

fun flt :: "cfloat \<Rightarrow> real \<Rightarrow> bool" where
  "flt NaN c = False"
| "flt MInf c = True"
| "flt (Fin r) c = (r < c)"
| "flt PInf c = False"

fun fgt :: "cfloat \<Rightarrow> real \<Rightarrow> bool" where
  "fgt NaN c = False"
| "fgt MInf c = False"
| "fgt (Fin r) c = (r > c)"
| "fgt PInf c = True"

fun fle :: "cfloat \<Rightarrow> real \<Rightarrow> bool" where
  "fle NaN c = False"
| "fle MInf c = True"
| "fle (Fin r) c = (r \<le> c)"
| "fle PInf c = False"

fun fge :: "cfloat \<Rightarrow> real \<Rightarrow> bool" where
  "fge NaN c = False"
| "fge MInf c = False"
| "fge (Fin r) c = (r \<ge> c)"
| "fge PInf c = True"

subsection \<open>Pins and driver calls\<close>

definition LED_GREEN_PIN :: nat where "LED_GREEN_PIN = 9"
definition LED_RED_PIN :: nat where "LED_RED_PIN = 10"
definition LED_BLUE_PIN :: nat where "LED_BLUE_PIN = 8"
definition BUZZER_PIN :: nat where "BUZZER_PIN = 6"
definition INFRARED_PIN :: nat where "INFRARED_PIN = 14"
definition HALL_PIN :: nat where "HALL_PIN = 15"

text \<open>\<open>PHOTO_RESISTOR_PIN\<close> is the analog input A0; only its role matters here.\<close>

definition PHOTO_RESISTOR_PIN :: nat where "PHOTO_RESISTOR_PIN = 54"

datatype pin_mode = INPUT | OUTPUT

datatype effect =
    LcdBegin nat nat
  | LcdClear
  | LcdSetCursor nat nat
  | LcdPrint string
  | LcdPrintInt int
  | LcdPrintFloat cfloat
  | PinMode nat pin_mode
  | DhtBegin
  | DigitalWrite nat bool
  | Tone nat nat nat
  | NoTone nat
  | Delay nat

subsection \<open>State\<close>

text \<open>
  The first four fields are the global variables of the sketch (\<open>currentState\<close> is an
  \<open>int\<close> in the source: 0 locked, 1 environmental monitoring, 2 light events, 3 alert,
  4 alarm, 5 infrared, 6 Hall). The last three are the board: \<open>clock\<close> is what
  \<open>millis()\<close> returns (an \<open>unsigned long\<close>, 32 bits, wrapping), \<open>dhtReads\<close> counts the
  samples already taken from the DHT sensor, \<open>trace\<close> is the list of driver calls made
  so far. Only \<open>delay\<close> and the time between two iterations of the main loop advance the
  clock. \<open>attemptCount\<close> is an \<open>int\<close> of the source and an unbounded integer here: it
  never leaves the range from 0 to \<open>MAX_ATTEMPTS\<close> (lemma \<open>attemptCount_bounded\<close>).
\<close>

record sys =
  inputPassword :: string
  attemptCount :: int
  currentState :: int
  stateChangeTime :: "32 word"
  clock :: "32 word"
  dhtReads :: nat
  trace :: "effect list"

definition CORRECT_PASSWORD :: string where "CORRECT_PASSWORD = ''0690''"
definition MAX_ATTEMPTS :: int where "MAX_ATTEMPTS = 3"

definition emit :: "effect list \<Rightarrow> sys \<Rightarrow> sys" where
  "emit es s = s\<lparr>trace := trace s @ es\<rparr>"

definition delay :: "nat \<Rightarrow> sys \<Rightarrow> sys" where
  "delay ms s = s\<lparr>clock := clock s + of_nat ms, trace := trace s @ [Delay ms]\<rparr>"

definition millis :: "sys \<Rightarrow> 32 word" where
  "millis s = clock s"

subsection \<open>Helpers of the sketch\<close>

primrec getAsterisks :: "nat \<Rightarrow> string" where
  "getAsterisks 0 = []"
| "getAsterisks (Suc n) = getAsterisks n @ [CHR ''*'']"

definition reset :: "sys \<Rightarrow> sys" where
  "reset s = emit [LcdClear, LcdPrint ''Ingrese la clave:'']
               (s\<lparr>inputPassword := [], attemptCount := 0\<rparr>)"

primrec alarmSound_loop :: "nat \<Rightarrow> sys \<Rightarrow> sys" where
  "alarmSound_loop 0 s = s"
| "alarmSound_loop (Suc n) s =
     alarmSound_loop n
       (delay 250 (emit [Tone BUZZER_PIN 500 250]
         (delay 250 (emit [Tone BUZZER_PIN 1000 250] s))))"

definition alarmSound :: "sys \<Rightarrow> sys" where
  "alarmSound s = emit [NoTone BUZZER_PIN] (alarmSound_loop 5 s)"

definition welcomeTone :: "sys \<Rightarrow> sys" where
  "welcomeTone s =
     emit [NoTone BUZZER_PIN]
       (delay 500 (emit [Tone BUZZER_PIN 392 500]
         (delay 500 (emit [Tone BUZZER_PIN 330 500]
           (delay 500 (emit [Tone BUZZER_PIN 262 500] s))))))"

subsection \<open>Start-up\<close>

text \<open>
  \<open>power_on\<close> holds the initialisers of the global variables, \<open>setup_sketch\<close> is the
  start-up function of the sketch (renamed: its name is reserved here).
\<close>

definition power_on :: "32 word \<Rightarrow> sys" where
  "power_on t0 = \<lparr>inputPassword = [], attemptCount = 0, currentState = 0,
                   stateChangeTime = 0, clock = t0, dhtReads = 0, trace = []\<rparr>"

definition setup_sketch :: "sys \<Rightarrow> sys" where
  "setup_sketch s = emit [LcdBegin 16 2,
                   PinMode LED_GREEN_PIN OUTPUT, PinMode LED_RED_PIN OUTPUT,
                   PinMode LED_BLUE_PIN OUTPUT, PinMode BUZZER_PIN OUTPUT,
                   PinMode PHOTO_RESISTOR_PIN INPUT, PinMode INFRARED_PIN INPUT,
                   PinMode HALL_PIN INPUT, DhtBegin,
                   LcdPrint ''Ingrese la clave:''] s"

subsection \<open>The keypad part of \<open>loop\<close>\<close>

text \<open>
  \<open>key\<close> is what \<open>keypad.getKey()\<close> returned; the character 0 is \<open>NO_KEY\<close>. The three
  branches are the ones of the source: \<open>'#'\<close> checks the password, \<open>'*'\<close> clears the
  entry, any other key is appended while fewer than four characters are stored.
\<close>

text \<open>
  \<open>submit_ok\<close> is the branch of a correct password, \<open>submit_fail\<close> the \<open>else\<close>
  branch, and \<open>lockout\<close> the body of the test on \<open>MAX_ATTEMPTS\<close> inside it.
\<close>

definition submit_ok :: "sys \<Rightarrow> sys" where
  "submit_ok s =
     (let s1 = emit [LcdClear, LcdPrint ''Bienvenido'', DigitalWrite LED_GREEN_PIN True] s;
          s2 = welcomeTone s1;
          s3 = delay 1000 s2;
          s4 = emit [DigitalWrite LED_GREEN_PIN False] s3;
          s5 = s4\<lparr>currentState := 1\<rparr>
      in s5\<lparr>stateChangeTime := millis s5\<rparr>)"

definition lockout :: "sys \<Rightarrow> sys" where
  "lockout s =
     (let s1 = emit [LcdClear, LcdPrint ''Bloqueado''] s;
          s2 = alarmSound s1;
          s3 = emit [DigitalWrite LED_RED_PIN True] s2;
          s4 = delay 2000 s3;
          s5 = emit [DigitalWrite LED_RED_PIN False] s4
      in reset s5)"

definition submit_fail :: "sys \<Rightarrow> sys" where
  "submit_fail s =
     (let s1 = s\<lparr>attemptCount := attemptCount s + 1\<rparr>;
          s2 = emit [LcdClear, LcdPrint ''Error intento '', LcdPrintInt (attemptCount s1)] s1;
          s3 = s2\<lparr>inputPassword := []\<rparr>
      in if attemptCount s3 \<ge> MAX_ATTEMPTS then lockout s3 else s3)"

definition loop :: "char \<Rightarrow> sys \<Rightarrow> sys" where
  "loop key s =
     (if key \<noteq> CHR 0x00 then
        if key = CHR ''#'' then
          if length (inputPassword s) = 4 \<and> inputPassword s = CORRECT_PASSWORD
          then submit_ok s
          else submit_fail s
        else if key = CHR ''*'' then
          emit [LcdClear, LcdPrint ''Ingrese la clave:''] (s\<lparr>inputPassword := []\<rparr>)
        else
          if length (inputPassword s) < 4 then
            (let s1 = s\<lparr>inputPassword := inputPassword s @ [key]\<rparr>
             in emit [LcdSetCursor 0 1, LcdPrint (getAsterisks (length (inputPassword s1)))] s1)
          else s
      else s)"

subsection \<open>The monitoring functions\<close>

text \<open>
  The DHT sensor is a sequence of samples (humidity, temperature); a pair of calls
  \<open>readHumidity\<close>, \<open>readTemperature\<close> takes the next one. The lux value is computed in
  the source from the analog reading with \<open>pow\<close> and the constants \<open>RL10\<close> and \<open>GAMMA\<close>,
  which the sketch does not declare: that computation is the parameter \<open>lux_of\<close>.
\<close>

type_synonym dht_sensor = "nat \<Rightarrow> cfloat \<times> cfloat"

text \<open>
  \<open>readDht\<close> is the pair of sensor calls that opens \<open>monitoreoAmbiental\<close> and each turn of
  the alarm loop. \<open>enter\<close> is the pair of assignments that ends every transition:
  \<open>currentState = n; stateChangeTime = millis();\<close>. \<open>blueAlarm\<close>, further down, is the
  block that switches the blue LED on, sounds the alarm, waits a second and switches the
  LED off; the source repeats it four times.
\<close>

definition readDht :: "dht_sensor \<Rightarrow> sys \<Rightarrow> (cfloat \<times> cfloat) \<times> sys" where
  "readDht dht s = (dht (dhtReads s), s\<lparr>dhtReads := dhtReads s + 1\<rparr>)"

definition enter :: "int \<Rightarrow> sys \<Rightarrow> sys" where
  "enter st s = (let s1 = s\<lparr>currentState := st\<rparr> in s1\<lparr>stateChangeTime := millis s1\<rparr>)"

definition monitoreoAmbiental :: "dht_sensor \<Rightarrow> sys \<Rightarrow> sys" where
  "monitoreoAmbiental dht s =
     (case readDht dht s of ((h, t), s0) \<Rightarrow>
        if flt t 10 \<or> fgt t 40 \<or> flt h 5 \<or> fgt h 60 then enter 4 s0
        else if millis s0 - stateChangeTime s0 \<ge> 4000 then
          enter 2 (emit [LcdClear, LcdPrint ''Moni Ambiental'', LcdSetCursor 0 1,
                         LcdPrint ''T:'', LcdPrintFloat t, LcdPrint ''C H:'',
                         LcdPrintFloat h] s0)
        else s0)"

definition monitorEventos :: "(int \<Rightarrow> cfloat) \<Rightarrow> int \<Rightarrow> sys \<Rightarrow> sys" where
  "monitorEventos lux_of analogValue s =
     (let lux = lux_of analogValue in
      if millis s - stateChangeTime s \<ge> 3000 then
        (let s1 = emit [LcdClear, LcdPrint ''Moni Eventos'', LcdSetCursor 0 1,
                        LcdPrint ''Luz : '', LcdPrintFloat lux] s
         in if fgt lux 700 \<or> flt lux 200 then enter 3 s1 else enter 1 s1)
      else s)"

definition blueAlarm :: "sys \<Rightarrow> sys" where
  "blueAlarm s =
     emit [DigitalWrite LED_BLUE_PIN False]
       (delay 1000 (alarmSound (emit [DigitalWrite LED_BLUE_PIN True] s)))"

definition monitoreoInfrarrojo :: "bool \<Rightarrow> sys \<Rightarrow> sys" where
  "monitoreoInfrarrojo infrared s =
     (if infrared then
        enter 2 (blueAlarm (emit [LcdClear, LcdPrint ''Infrarrojo Activo''] s))
      else s)"

definition monitoreoHall :: "bool \<Rightarrow> sys \<Rightarrow> sys" where
  "monitoreoHall hall s =
     (if hall then
        enter 2 (blueAlarm (emit [LcdClear, LcdPrint ''Hall Activo''] s))
      else s)"

definition alerta :: "(int \<Rightarrow> cfloat) \<Rightarrow> int \<Rightarrow> sys \<Rightarrow> sys" where
  "alerta lux_of analogValue s =
     (let lux = lux_of analogValue in
      if millis s - stateChangeTime s \<ge> 3000 then
        (let s1 = emit [LcdClear, LcdPrint ''Alerta!'', LcdSetCursor 0 1] s;
             s2 = (if fgt lux 700 then blueAlarm (emit [LcdPrint ''Luz: Alta''] s1)
                   else if flt lux 200 then blueAlarm (emit [LcdPrint ''Luz: Baja''] s1)
                   else s1)
         in enter 2 s2)
      else s)"

subsection \<open>The alarm\<close>

text \<open>
  \<open>alarma\<close> holds the processor in \<open>while (true)\<close> until a sample is back in range. The
  loop may run forever, so it is a partial function: \<open>None\<close> is the run that never
  leaves the loop.
\<close>

text \<open>
  \<open>in_range\<close> is the test of the loop, \<open>alarma_exit\<close> the body of its \<open>if\<close>, and
  \<open>alarma_enter\<close> the statements of \<open>alarma\<close> before the loop.
\<close>

definition in_range :: "cfloat \<times> cfloat \<Rightarrow> bool" where
  "in_range ht = (case ht of (h, t) \<Rightarrow> fge t 10 \<and> fle t 40 \<and> fge h 5 \<and> fle h 60)"

definition alarma_exit :: "sys \<Rightarrow> sys" where
  "alarma_exit s = enter 1 (emit [DigitalWrite LED_RED_PIN False, NoTone BUZZER_PIN] s)"

partial_function (option) alarma_loop :: "dht_sensor \<Rightarrow> sys \<Rightarrow> sys option" where
  "alarma_loop dht s =
     (if in_range (fst (readDht dht s)) then Some (alarma_exit (snd (readDht dht s)))
      else alarma_loop dht (snd (readDht dht s)))"

definition alarma_enter :: "sys \<Rightarrow> sys" where
  "alarma_enter s =
     emit [LcdClear, LcdPrint ''ALERTA CRITICA!'', LcdSetCursor 0 1,
           LcdPrint ''T o H fuera de'', LcdSetCursor 0 2, LcdPrint ''rango seguro!'']
       (alarmSound (emit [DigitalWrite LED_RED_PIN True] s))"

definition alarma :: "dht_sensor \<Rightarrow> sys \<Rightarrow> sys option" where
  "alarma dht s = alarma_loop dht (alarma_enter s)"

subsection \<open>The dispatch on \<open>currentState\<close> and the main loop\<close>

text \<open>
  One iteration of the main loop: the time since the previous iteration passes, the
  keypad part runs with the key read, then the \<open>switch\<close> on \<open>currentState\<close> calls the
  function of the current state. In the file the \<open>switch\<close> stands right after the brace
  that closes \<open>loop\<close>; \<open>tick\<close> runs it at the end of every iteration. The keypad part
  does not look at \<open>currentState\<close>, and the \<open>switch\<close> has no case for 0 and no default.
\<close>

record tick_input =
  in_key :: char
  in_elapsed :: "32 word"
  in_analog :: int
  in_infrared :: bool
  in_hall :: bool

definition dispatch :: "dht_sensor \<Rightarrow> (int \<Rightarrow> cfloat) \<Rightarrow> tick_input \<Rightarrow> sys \<Rightarrow> sys option" where
  "dispatch dht lux_of inp s =
     (if currentState s = 1 then Some (monitoreoAmbiental dht s)
      else if currentState s = 2 then Some (monitorEventos lux_of (in_analog inp) s)
      else if currentState s = 3 then Some (alerta lux_of (in_analog inp) s)
      else if currentState s = 4 then alarma dht s
      else if currentState s = 5 then Some (monitoreoInfrarrojo (in_infrared inp) s)
      else if currentState s = 6 then Some (monitoreoHall (in_hall inp) s)
      else Some s)"

definition tick :: "dht_sensor \<Rightarrow> (int \<Rightarrow> cfloat) \<Rightarrow> tick_input \<Rightarrow> sys \<Rightarrow> sys option" where
  "tick dht lux_of inp s =
     dispatch dht lux_of inp (loop (in_key inp) (s\<lparr>clock := clock s + in_elapsed inp\<rparr>))"

fun run :: "dht_sensor \<Rightarrow> (int \<Rightarrow> cfloat) \<Rightarrow> tick_input list \<Rightarrow> sys \<Rightarrow> sys option" where
  "run dht lux_of [] s = Some s"
| "run dht lux_of (inp # inps) s =
     (case tick dht lux_of inp s of None \<Rightarrow> None | Some s' \<Rightarrow> run dht lux_of inps s')"

definition boot :: "32 word \<Rightarrow> sys" where
  "boot t0 = setup_sketch (power_on t0)"

subsection \<open>Names used in the statements\<close>

text \<open>
  The driver calls of \<open>alarmSound\<close>, of the welcome branch and of the lockout branch, written
  out as lists; a digit key; two states reached from start-up by typing four keys, and
  one reached by two empty submissions.
\<close>

definition alarm_pattern :: "effect list" where
  "alarm_pattern =
     concat (replicate 5 [Tone BUZZER_PIN 1000 250, Delay 250, Tone BUZZER_PIN 500 250, Delay 250])
     @ [NoTone BUZZER_PIN]"

definition welcome_trace :: "effect list" where
  "welcome_trace =
     [LcdClear, LcdPrint ''Bienvenido'', DigitalWrite LED_GREEN_PIN True,
      Tone BUZZER_PIN 262 500, Delay 500, Tone BUZZER_PIN 330 500, Delay 500,
      Tone BUZZER_PIN 392 500, Delay 500, NoTone BUZZER_PIN,
      Delay 1000, DigitalWrite LED_GREEN_PIN False]"

definition lockout_trace :: "effect list" where
  "lockout_trace =
     [LcdClear, LcdPrint ''Bloqueado''] @ alarm_pattern @
     [DigitalWrite LED_RED_PIN True, Delay 2000, DigitalWrite LED_RED_PIN False,
      LcdClear, LcdPrint ''Ingrese la clave:'']"

definition digit_key :: "char \<Rightarrow> bool" where
  "digit_key k = (k \<in> set ''0123456789'')"

definition typed_secret :: sys where
  "typed_secret = fold loop ''0690'' (boot 0)"

definition typed_wrong :: sys where
  "typed_wrong = fold loop ''1234'' (boot 0)"

definition two_failed :: sys where
  "two_failed = fold loop ''##'' (boot 0)"

text \<open>
  More examples: the state right after a correct password, that state moved to light
  events with the clock set, sensors that are too hot, that recover at the third sample,
  that only return NaN, and that stay in range; the alarm state reached from the hot
  sensor; the driver calls at the start of \<open>alarma\<close>; and a short session at the keypad.
\<close>

definition unlocked :: sys where
  "unlocked = loop (CHR ''#'') typed_secret"

definition in_events :: "32 word \<Rightarrow> sys" where
  "in_events now = (enter 2 unlocked)\<lparr>clock := now\<rparr>"

definition hot :: dht_sensor where
  "hot = (\<lambda>n. (Fin 30, Fin 45))"

definition recovering :: dht_sensor where
  "recovering = (\<lambda>n. if n < 2 then (Fin 30, Fin 45) else (Fin 30, Fin 25))"

definition broken :: dht_sensor where
  "broken = (\<lambda>n. (NaN, NaN))"

definition mild :: dht_sensor where
  "mild = (\<lambda>n. (Fin 30, Fin 25))"

definition in_alarm :: sys where
  "in_alarm = monitoreoAmbiental hot unlocked"

definition alarm_entry_trace :: "effect list" where
  "alarm_entry_trace =
     [DigitalWrite LED_RED_PIN True] @ alarm_pattern @
     [LcdClear, LcdPrint ''ALERTA CRITICA!'', LcdSetCursor 0 1, LcdPrint ''T o H fuera de'',
      LcdSetCursor 0 2, LcdPrint ''rango seguro!'']"

definition press :: "char \<Rightarrow> tick_input" where
  "press k = \<lparr>in_key = k, in_elapsed = 10, in_analog = 512, in_infrared = False, in_hall = False\<rparr>"

definition idle :: "32 word \<Rightarrow> tick_input" where
  "idle d = \<lparr>in_key = CHR 0x00, in_elapsed = d, in_analog = 512, in_infrared = False,
             in_hall = False\<rparr>"

definition session :: "tick_input list" where
  "session = map press ''0690#'' @ [idle 4000, idle 3000]"

section \<open>Field lemmas\<close>

text \<open>What each building block does to each field of the state.\<close>

lemma emit_fields [simp]:
  "inputPassword (emit es s) = inputPassword s"
  "attemptCount (emit es s) = attemptCount s"
  "currentState (emit es s) = currentState s"
  "stateChangeTime (emit es s) = stateChangeTime s"
  "clock (emit es s) = clock s"
  "dhtReads (emit es s) = dhtReads s"
  "trace (emit es s) = trace s @ es"
  by (simp_all add: emit_def)

lemma delay_fields [simp]:
  "inputPassword (delay ms s) = inputPassword s"
  "attemptCount (delay ms s) = attemptCount s"
  "currentState (delay ms s) = currentState s"
  "stateChangeTime (delay ms s) = stateChangeTime s"
  "clock (delay ms s) = clock s + of_nat ms"
  "dhtReads (delay ms s) = dhtReads s"
  "trace (delay ms s) = trace s @ [Delay ms]"
  by (simp_all add: delay_def)

lemma enter_fields [simp]:
  "inputPassword (enter st s) = inputPassword s"
  "attemptCount (enter st s) = attemptCount s"
  "currentState (enter st s) = st"
  "stateChangeTime (enter st s) = clock s"
  "clock (enter st s) = clock s"
  "dhtReads (enter st s) = dhtReads s"
  "trace (enter st s) = trace s"
  by (simp_all add: enter_def millis_def Let_def)

lemma alarmSound_loop_fields [simp]:
  "inputPassword (alarmSound_loop n s) = inputPassword s"
  "attemptCount (alarmSound_loop n s) = attemptCount s"
  "currentState (alarmSound_loop n s) = currentState s"
  "stateChangeTime (alarmSound_loop n s) = stateChangeTime s"
  "dhtReads (alarmSound_loop n s) = dhtReads s"
  by (induction n arbitrary: s; simp)+

lemma alarmSound_loop_clock [simp]:
  "clock (alarmSound_loop n s) = clock s + of_nat (500 * n)"
  by (induction n arbitrary: s) simp_all

lemma alarmSound_loop_trace [simp]:
  "trace (alarmSound_loop n s) = trace s @
     concat (replicate n [Tone BUZZER_PIN 1000 250, Delay 250, Tone BUZZER_PIN 500 250, Delay 250])"
  by (induction n arbitrary: s) simp_all

lemma alarmSound_fields [simp]:
  "inputPassword (alarmSound s) = inputPassword s"
  "attemptCount (alarmSound s) = attemptCount s"
  "currentState (alarmSound s) = currentState s"
  "stateChangeTime (alarmSound s) = stateChangeTime s"
  "clock (alarmSound s) = clock s + 2500"
  "dhtReads (alarmSound s) = dhtReads s"
  "trace (alarmSound s) = trace s @ alarm_pattern"
  by (simp_all add: alarmSound_def alarm_pattern_def)

lemma welcomeTone_fields [simp]:
  "inputPassword (welcomeTone s) = inputPassword s"
  "attemptCount (welcomeTone s) = attemptCount s"
  "currentState (welcomeTone s) = currentState s"
  "stateChangeTime (welcomeTone s) = stateChangeTime s"
  "clock (welcomeTone s) = clock s + 1500"
  "dhtReads (welcomeTone s) = dhtReads s"
  "trace (welcomeTone s) = trace s @ [Tone BUZZER_PIN 262 500, Delay 500, Tone BUZZER_PIN 330 500,
      Delay 500, Tone BUZZER_PIN 392 500, Delay 500, NoTone BUZZER_PIN]"
  by (simp_all add: welcomeTone_def)

lemma reset_fields [simp]:
  "inputPassword (reset s) = []"
  "attemptCount (reset s) = 0"
  "currentState (reset s) = currentState s"
  "stateChangeTime (reset s) = stateChangeTime s"
  "clock (reset s) = clock s"
  "dhtReads (reset s) = dhtReads s"
  "trace (reset s) = trace s @ [LcdClear, LcdPrint ''Ingrese la clave:'']"
  by (simp_all add: reset_def)

lemma submit_ok_fields [simp]:
  "inputPassword (submit_ok s) = inputPassword s"
  "attemptCount (submit_ok s) = attemptCount s"
  "currentState (submit_ok s) = 1"
  "stateChangeTime (submit_ok s) = clock s + 2500"
  "clock (submit_ok s) = clock s + 2500"
  "dhtReads (submit_ok s) = dhtReads s"
  "trace (submit_ok s) = trace s @ welcome_trace"
  by (simp_all add: submit_ok_def Let_def millis_def welcome_trace_def)

lemma lockout_fields [simp]:
  "inputPassword (lockout s) = []"
  "attemptCount (lockout s) = 0"
  "currentState (lockout s) = currentState s"
  "stateChangeTime (lockout s) = stateChangeTime s"
  "clock (lockout s) = clock s + 4500"
  "dhtReads (lockout s) = dhtReads s"
  "trace (lockout s) = trace s @ lockout_trace"
  by (simp_all add: lockout_def Let_def lockout_trace_def)

lemma submit_fail_fields [simp]:
  "inputPassword (submit_fail s) = []"
  "attemptCount (submit_fail s) = (if attemptCount s + 1 \<ge> MAX_ATTEMPTS then 0 else attemptCount s + 1)"
  "currentState (submit_fail s) = currentState s"
  "stateChangeTime (submit_fail s) = stateChangeTime s"
  "clock (submit_fail s) = (if attemptCount s + 1 \<ge> MAX_ATTEMPTS then clock s + 4500 else clock s)"
  "dhtReads (submit_fail s) = dhtReads s"
  "trace (submit_fail s) = trace s @ [LcdClear, LcdPrint ''Error intento '', LcdPrintInt (attemptCount s + 1)]
       @ (if attemptCount s + 1 \<ge> MAX_ATTEMPTS then lockout_trace else [])"
  by (simp_all add: submit_fail_def Let_def)

lemma boot_fields [simp]:
  "inputPassword (boot t0) = []"
  "attemptCount (boot t0) = 0"
  "currentState (boot t0) = 0"
  "stateChangeTime (boot t0) = 0"
  "clock (boot t0) = t0"
  "dhtReads (boot t0) = 0"
  by (simp_all add: boot_def setup_sketch_def power_on_def)

lemma loop_other_key:
  "k \<noteq> CHR 0x00 \<Longrightarrow> k \<noteq> CHR ''#'' \<Longrightarrow> k \<noteq> CHR ''*'' \<Longrightarrow>
   loop k s = (if length (inputPassword s) < 4
               then emit [LcdSetCursor 0 1, LcdPrint (getAsterisks (Suc (length (inputPassword s))))]
                      (s\<lparr>inputPassword := inputPassword s @ [k]\<rparr>)
               else s)"
  by (simp add: loop_def Let_def)

lemma getAsterisks_replicate: "getAsterisks n = replicate n (CHR ''*'')"
  by (induction n) (simp_all add: replicate_append_same)

lemma typed_secret_fields:
  "inputPassword typed_secret = ''0690''"
  "currentState typed_secret = 0"
  "attemptCount typed_secret = 0"
  by (simp_all add: typed_secret_def loop_other_key)

lemma typed_wrong_fields:
  "inputPassword typed_wrong = ''1234''"
  "currentState typed_wrong = 0"
  "attemptCount typed_wrong = 0"
  by (simp_all add: typed_wrong_def loop_other_key)

lemma two_failed_fields:
  "inputPassword two_failed = []"
  "currentState two_failed = 0"
  "attemptCount two_failed = 2"
  by (simp_all add: two_failed_def loop_def CORRECT_PASSWORD_def MAX_ATTEMPTS_def)

lemma loop_length_le:
  "length (inputPassword s) \<le> 4 \<Longrightarrow> length (inputPassword (loop k s)) \<le> 4"
  by (auto simp add: loop_def Let_def CORRECT_PASSWORD_def)

lemma fold_loop_length_le:
  "length (inputPassword s) \<le> 4 \<Longrightarrow> length (inputPassword (fold loop ks s)) \<le> 4"
  by (induction ks arbitrary: s) (simp_all add: loop_length_le)

lemma readDht_fields [simp]:
  "fst (readDht dht s) = dht (dhtReads s)"
  "inputPassword (snd (readDht dht s)) = inputPassword s"
  "attemptCount (snd (readDht dht s)) = attemptCount s"
  "currentState (snd (readDht dht s)) = currentState s"
  "stateChangeTime (snd (readDht dht s)) = stateChangeTime s"
  "clock (snd (readDht dht s)) = clock s"
  "dhtReads (snd (readDht dht s)) = dhtReads s + 1"
  "trace (snd (readDht dht s)) = trace s"
  by (simp_all add: readDht_def)

lemma unlocked_fields:
  "currentState unlocked = 1" "clock unlocked = 2500" "stateChangeTime unlocked = 2500"
  "dhtReads unlocked = 0"
  by (simp_all add: unlocked_def loop_def typed_secret_fields CORRECT_PASSWORD_def
        typed_secret_def loop_other_key)

lemma alarma_enter_fields [simp]:
  "inputPassword (alarma_enter s) = inputPassword s"
  "attemptCount (alarma_enter s) = attemptCount s"
  "currentState (alarma_enter s) = currentState s"
  "stateChangeTime (alarma_enter s) = stateChangeTime s"
  "clock (alarma_enter s) = clock s + 2500"
  "dhtReads (alarma_enter s) = dhtReads s"
  "trace (alarma_enter s) = trace s @ alarm_entry_trace"
  by (simp_all add: alarma_enter_def alarm_entry_trace_def)

lemma alarma_exit_fields [simp]:
  "inputPassword (alarma_exit s) = inputPassword s"
  "attemptCount (alarma_exit s) = attemptCount s"
  "currentState (alarma_exit s) = 1"
  "stateChangeTime (alarma_exit s) = clock s"
  "clock (alarma_exit s) = clock s"
  "dhtReads (alarma_exit s) = dhtReads s"
  "trace (alarma_exit s) = trace s @ [DigitalWrite LED_RED_PIN False, NoTone BUZZER_PIN]"
  by (simp_all add: alarma_exit_def)

section \<open>Key sequences\<close>

text \<open>
  Keys other than \<open>'#'\<close> touch neither the counter nor the state, and never print the
  lockout message; \<open>'#'\<close> on anything but the secret is the failure branch.
\<close>

lemma loop_not_submit:
  "CHR ''#'' \<noteq> k \<Longrightarrow>
     attemptCount (loop k s) = attemptCount s \<and> currentState (loop k s) = currentState s"
  by (auto simp add: loop_def Let_def)

lemma fold_loop_not_submit:
  "CHR ''#'' \<notin> set ks \<Longrightarrow>
     attemptCount (fold loop ks s) = attemptCount s \<and>
     currentState (fold loop ks s) = currentState s"
  by (induction ks arbitrary: s) (simp_all add: loop_not_submit)

lemma loop_submit_wrong:
  "inputPassword s \<noteq> CORRECT_PASSWORD \<Longrightarrow> loop (CHR ''#'') s = submit_fail s"
  by (simp add: loop_def)

lemma getAsterisks_not_msg: "getAsterisks n \<noteq> ''Bloqueado''"
proof
  assume "getAsterisks n = ''Bloqueado''"
  then have "CHR ''B'' \<in> set (replicate n (CHR ''*''))"
    by (simp add: getAsterisks_replicate)
  then show False by simp
qed

lemma loop_not_submit_msg:
  "CHR ''#'' \<noteq> k \<Longrightarrow>
     (LcdPrint ''Bloqueado'' \<in> set (trace (loop k s))) = (LcdPrint ''Bloqueado'' \<in> set (trace s))"
  by (auto simp add: loop_def Let_def getAsterisks_not_msg)

lemma fold_loop_not_submit_msg:
  "CHR ''#'' \<notin> set ks \<Longrightarrow>
     (LcdPrint ''Bloqueado'' \<in> set (trace (fold loop ks s))) = (LcdPrint ''Bloqueado'' \<in> set (trace s))"
  by (induction ks arbitrary: s) (simp_all add: loop_not_submit_msg)

lemma failed_round:
  assumes "CHR ''#'' \<notin> set ks" "inputPassword (fold loop ks s) \<noteq> CORRECT_PASSWORD"
  shows "fold loop (ks @ [CHR ''#'']) s = submit_fail (fold loop ks s)"
  using assms by (simp add: loop_submit_wrong)

lemma attemptCount_bounded:
  "0 \<le> attemptCount s \<and> attemptCount s < MAX_ATTEMPTS \<Longrightarrow>
   0 \<le> attemptCount (fold loop ks s) \<and> attemptCount (fold loop ks s) < MAX_ATTEMPTS"
proof (induction ks arbitrary: s)
  case Nil
  then show ?case by simp
next
  case (Cons k ks)
  from Cons.prems have "0 \<le> attemptCount (loop k s) \<and> attemptCount (loop k s) < MAX_ATTEMPTS"
    by (simp add: loop_def Let_def MAX_ATTEMPTS_def)
  then show ?case by (simp add: Cons.IH)
qed

section \<open>The alarm loop\<close>

text \<open>
  The loop returns at the first sample in range, counted from the current position of
  the sensor, and a run that returns has met such a sample.
\<close>

lemma alarma_loop_hit:
  "in_range (dht (dhtReads s + d)) \<Longrightarrow> (\<forall>m<d. \<not> in_range (dht (dhtReads s + m))) \<Longrightarrow>
   alarma_loop dht s = Some (alarma_exit (s\<lparr>dhtReads := dhtReads s + d + 1\<rparr>))"
proof (induction d arbitrary: s)
  case 0
  then show ?case
    by (subst alarma_loop.simps [of dht s]) (simp add: readDht_def)
next
  case (Suc d)
  let ?s1 = "snd (readDht dht s)"
  have first: "\<not> in_range (dht (dhtReads s))"
    using Suc.prems(2) [rule_format, of 0] by simp
  have a: "in_range (dht (dhtReads ?s1 + d))"
    using Suc.prems(1) by simp
  have b: "\<forall>m<d. \<not> in_range (dht (dhtReads ?s1 + m))"
  proof (intro allI impI)
    fix m assume "m < d"
    then have "Suc m < Suc d" by simp
    with Suc.prems(2) have "\<not> in_range (dht (dhtReads s + Suc m))" by blast
    then show "\<not> in_range (dht (dhtReads ?s1 + m))" by simp
  qed
  have "alarma_loop dht s = alarma_loop dht ?s1"
    using first by (subst alarma_loop.simps [of dht s]) simp
  also have "\<dots> = Some (alarma_exit (?s1\<lparr>dhtReads := dhtReads ?s1 + d + 1\<rparr>))"
    by (rule Suc.IH [OF a b])
  finally show ?case by (simp add: readDht_def)
qed

lemma alarma_loop_some:
  assumes "alarma_loop dht s = Some s'"
  shows "\<exists>n\<ge>dhtReads s. in_range (dht n)"
proof (rule alarma_loop.raw_induct
    [where P = "\<lambda>dht s s'. \<exists>n\<ge>dhtReads s. in_range (dht n)", OF _ assms])
  fix rec :: "dht_sensor \<Rightarrow> sys \<Rightarrow> sys option" and dht s s'
  assume IH: "\<And>dht s s'. rec dht s = Some s' \<Longrightarrow> \<exists>n\<ge>dhtReads s. in_range (dht n)"
    and step: "(if in_range (fst (readDht dht s)) then Some (alarma_exit (snd (readDht dht s)))
                else rec dht (snd (readDht dht s))) = Some s'"
  show "\<exists>n\<ge>dhtReads s. in_range (dht n)"
  proof (cases "in_range (dht (dhtReads s))")
    case True
    then show ?thesis by blast
  next
    case False
    with step have "rec dht (snd (readDht dht s)) = Some s'" by simp
    then have "\<exists>n\<ge>dhtReads (snd (readDht dht s)). in_range (dht n)" by (rule IH)
    then obtain n where "Suc (dhtReads s) \<le> n" "in_range (dht n)" by auto
    then have "dhtReads s \<le> n \<and> in_range (dht n)" by simp
    then show ?thesis by blast
  qed
qed

lemma alarma_loop_first:
  assumes "\<exists>n\<ge>dhtReads s. in_range (dht n)"
  shows "\<exists>d. in_range (dht (dhtReads s + d)) \<and> (\<forall>m<d. \<not> in_range (dht (dhtReads s + m))) \<and>
             alarma_loop dht s = Some (alarma_exit (s\<lparr>dhtReads := dhtReads s + d + 1\<rparr>))"
proof -
  from assms obtain n where n: "dhtReads s \<le> n" "in_range (dht n)" by blast
  define Q where "Q d = in_range (dht (dhtReads s + d))" for d
  have "Q (n - dhtReads s)" using n by (simp add: Q_def)
  then have least: "Q (LEAST d. Q d)" by (rule LeastI)
  have below: "\<not> Q m" if "m < (LEAST d. Q d)" for m
    using that by (rule not_less_Least)
  let ?d = "LEAST d. Q d"
  have a: "in_range (dht (dhtReads s + ?d))" using least by (simp add: Q_def)
  have b: "\<forall>m<?d. \<not> in_range (dht (dhtReads s + m))" using below by (simp add: Q_def)
  from a b alarma_loop_hit [OF a b] show ?thesis by blast
qed

section \<open>The value of \<open>currentState\<close>\<close>

text \<open>Which values each function can leave in \<open>currentState\<close>.\<close>

lemma loop_state: "currentState (loop k s) = currentState s \<or> currentState (loop k s) = 1"
  by (simp add: loop_def Let_def)

lemma monitoreoAmbiental_state:
  "currentState (monitoreoAmbiental dht s) \<in> {currentState s, 2, 4}"
  by (simp add: monitoreoAmbiental_def readDht_def split: prod.splits)

lemma monitorEventos_state:
  "currentState (monitorEventos lux_of a s) \<in> {currentState s, 1, 3}"
  by (simp add: monitorEventos_def Let_def)

lemma alerta_state: "currentState (alerta lux_of a s) \<in> {currentState s, 2}"
  by (simp add: alerta_def Let_def)

lemma alarma_state: "alarma dht s = Some s' \<Longrightarrow> currentState s' = 1"
proof -
  assume r: "alarma dht s = Some s'"
  then have l: "alarma_loop dht (alarma_enter s) = Some s'" by (simp add: alarma_def)
  from alarma_loop_first [OF alarma_loop_some [OF l]] l show ?thesis by auto
qed

lemma dispatch_state:
  assumes "dispatch dht lux_of inp s = Some s'" "currentState s \<in> {0, 1, 2, 3, 4}"
  shows "currentState s' \<in> {0, 1, 2, 3, 4}"
proof -
  consider "currentState s = 0" | "currentState s = 1" | "currentState s = 2"
    | "currentState s = 3" | "currentState s = 4"
    using assms(2) by auto
  then show ?thesis
  proof cases
    case 1
    with assms(1) show ?thesis by (simp add: dispatch_def)
  next
    case 2
    with assms(1) monitoreoAmbiental_state [of dht s] show ?thesis
      by (auto simp add: dispatch_def)
  next
    case 3
    with assms(1) monitorEventos_state [of lux_of "in_analog inp" s] show ?thesis
      by (auto simp add: dispatch_def)
  next
    case 4
    with assms(1) alerta_state [of lux_of "in_analog inp" s] show ?thesis
      by (auto simp add: dispatch_def)
  next
    case 5
    with assms(1) have "alarma dht s = Some s'" by (simp add: dispatch_def)
    then show ?thesis by (simp add: alarma_state)
  qed
qed

lemma tick_state:
  assumes "tick dht lux_of inp s = Some s'" "currentState s \<in> {0, 1, 2, 3, 4}"
  shows "currentState s' \<in> {0, 1, 2, 3, 4}"
proof -
  let ?m = "loop (in_key inp) (s\<lparr>clock := clock s + in_elapsed inp\<rparr>)"
  have "currentState ?m \<in> {0, 1, 2, 3, 4}"
    using assms(2) loop_state [of "in_key inp" "s\<lparr>clock := clock s + in_elapsed inp\<rparr>"]
    by auto
  with assms(1) show ?thesis
    unfolding tick_def by (rule dispatch_state)
qed

lemma run_state:
  "run dht lux_of inps s = Some s' \<Longrightarrow> currentState s \<in> {0, 1, 2, 3, 4} \<Longrightarrow>
   currentState s' \<in> {0, 1, 2, 3, 4}"
proof (induction inps arbitrary: s)
  case Nil
  then show ?case by simp
next
  case (Cons inp inps)
  from Cons.prems(1) obtain m where m: "tick dht lux_of inp s = Some m"
    "run dht lux_of inps m = Some s'"
    by (auto split: option.splits)
  from m(1) Cons.prems(2) have "currentState m \<in> {0, 1, 2, 3, 4}" by (rule tick_state)
  with m(2) show ?case by (rule Cons.IH)
qed

section \<open>Running the example session\<close>

lemma dispatch_cases:
  "currentState s = 0 \<Longrightarrow> dispatch dht lux_of inp s = Some s"
  "currentState s = 1 \<Longrightarrow> dispatch dht lux_of inp s = Some (monitoreoAmbiental dht s)"
  "currentState s = 2 \<Longrightarrow> dispatch dht lux_of inp s = Some (monitorEventos lux_of (in_analog inp) s)"
  by (simp_all add: dispatch_def)

lemma loop_no_key: "loop (CHR 0x00) s = s"
  by (simp add: loop_def)

lemma loop_submit_right:
  "inputPassword s = CORRECT_PASSWORD \<Longrightarrow> loop (CHR ''#'') s = submit_ok s"
  by (simp add: loop_def CORRECT_PASSWORD_def)

lemma monitoreoAmbiental_in_range:
  assumes "dht (dhtReads s) = (h, t)" "\<not> (flt t 10 \<or> fgt t 40 \<or> flt h 5 \<or> fgt h 60)"
  shows "clock s - stateChangeTime s < 4000 \<Longrightarrow> monitoreoAmbiental dht s = snd (readDht dht s)"
    and "clock s - stateChangeTime s \<ge> 4000 \<Longrightarrow> monitoreoAmbiental dht s =
      enter 2 (emit [LcdClear, LcdPrint ''Moni Ambiental'', LcdSetCursor 0 1,
                     LcdPrint ''T:'', LcdPrintFloat t, LcdPrint ''C H:'', LcdPrintFloat h]
                 (snd (readDht dht s)))"
  using assms by (simp_all add: monitoreoAmbiental_def readDht_def millis_def)

lemma monitorEventos_due:
  "clock s - stateChangeTime s \<ge> 3000 \<Longrightarrow> fgt (lux_of a) 700 \<or> flt (lux_of a) 200 \<Longrightarrow>
   monitorEventos lux_of a s =
     enter 3 (emit [LcdClear, LcdPrint ''Moni Eventos'', LcdSetCursor 0 1, LcdPrint ''Luz : '',
                    LcdPrintFloat (lux_of a)] s)"
  by (simp add: monitorEventos_def Let_def millis_def)

lemma session_run:
  "case run mild (\<lambda>a. Fin 750) session (boot 0) of None \<Rightarrow> False
   | Some s \<Rightarrow> currentState s = 3"
proof -
  have m: "mild n = (Fin 30, Fin 25)" for n by (simp add: mild_def)
  have r: "\<not> (flt (Fin 25) 10 \<or> fgt (Fin 25) 40 \<or> flt (Fin 30) 5 \<or> fgt (Fin 30) 60)" by simp
  note amb = monitoreoAmbiental_in_range [OF m r]
  show ?thesis
    by (simp add: session_def press_def idle_def tick_def dispatch_cases loop_other_key
        loop_no_key loop_submit_right CORRECT_PASSWORD_def amb monitorEventos_due)
qed

section \<open>The access gate\<close>

text \<open>
  Claim C1, amended. When \<open>'#'\<close> is pressed in the locked state with the four stored
  characters equal to the secret, the state becomes 1 (environmental monitoring) and
  \<open>stateChangeTime\<close> is the time at the end of the welcome sequence, 2500 ms after the key.
  The entered password and the attempt counter are left as they were: the password is
  not cleared.
\<close>

theorem submit_correct_unlocks:
  assumes "currentState s = 0" "length (inputPassword s) = 4" "inputPassword s = CORRECT_PASSWORD"
  shows "currentState (loop (CHR ''#'') s) = 1 \<and>
         stateChangeTime (loop (CHR ''#'') s) = millis (loop (CHR ''#'') s) \<and>
         millis (loop (CHR ''#'') s) = millis s + 2500 \<and>
         inputPassword (loop (CHR ''#'') s) = inputPassword s \<and>
         attemptCount (loop (CHR ''#'') s) = attemptCount s \<and>
         trace (loop (CHR ''#'') s) = trace s @ welcome_trace"
  using assms by (simp add: loop_def millis_def)

theorem submit_correct_unlocks_witness:
  "currentState typed_secret = 0 \<and> length (inputPassword typed_secret) = 4 \<and>
   inputPassword typed_secret = CORRECT_PASSWORD \<and>
   currentState (loop (CHR ''#'') typed_secret) = 1 \<and>
   stateChangeTime (loop (CHR ''#'') typed_secret) = 2500 \<and>
   inputPassword (loop (CHR ''#'') typed_secret) = ''0690''"
proof -
  have h: "currentState typed_secret = 0" "length (inputPassword typed_secret) = 4"
    "inputPassword typed_secret = CORRECT_PASSWORD"
    by (simp_all add: typed_secret_fields CORRECT_PASSWORD_def)
  have c: "clock typed_secret = 0"
    by (simp add: typed_secret_def loop_other_key)
  from submit_correct_unlocks [OF h] h c show ?thesis
    by (simp add: millis_def typed_secret_fields CORRECT_PASSWORD_def)
qed

text \<open>
  Claim C1 as stated fails: after start-up and the keys 0, 6, 9, 0, the key \<open>'#'\<close> leaves
  the four characters in \<open>inputPassword\<close>.
\<close>

theorem submit_correct_keeps_pin:
  "currentState typed_secret = 0 \<and> length (inputPassword typed_secret) = 4 \<and>
   inputPassword typed_secret = CORRECT_PASSWORD \<and>
   inputPassword (loop (CHR ''#'') typed_secret) \<noteq> []"
  by (simp add: typed_secret_fields CORRECT_PASSWORD_def loop_def)

text \<open>
  Claim C2, amended. In the locked state a key that is neither a digit nor \<open>'#'\<close> nor
  \<open>'*'\<close> (the letters A to D) is handled exactly like a digit: with fewer than four characters
  stored it is appended and the masked line is redrawn, with four stored nothing at all
  changes. The attempt counter and the state never change.
\<close>

theorem other_key_appended:
  assumes "currentState s = 0" "k \<noteq> CHR 0x00" "\<not> digit_key k" "k \<noteq> CHR ''#''" "k \<noteq> CHR ''*''"
  shows "attemptCount (loop k s) = attemptCount s \<and> currentState (loop k s) = 0 \<and>
         (length (inputPassword s) < 4 \<longrightarrow>
            inputPassword (loop k s) = inputPassword s @ [k] \<and>
            trace (loop k s) = trace s @
              [LcdSetCursor 0 1, LcdPrint (replicate (length (inputPassword s) + 1) (CHR ''*''))]) \<and>
         (length (inputPassword s) \<ge> 4 \<longrightarrow> loop k s = s)"
  using assms by (simp add: loop_other_key getAsterisks_replicate)

theorem other_key_appended_witness:
  "currentState (boot 0) = 0 \<and> \<not> digit_key (CHR ''A'') \<and>
   attemptCount (loop (CHR ''A'') (boot 0)) = 0 \<and> currentState (loop (CHR ''A'') (boot 0)) = 0 \<and>
   length (inputPassword (boot 0)) < 4 \<and> inputPassword (loop (CHR ''A'') (boot 0)) = ''A'' \<and>
   currentState typed_secret = 0 \<and> length (inputPassword typed_secret) \<ge> 4 \<and>
   loop (CHR ''A'') typed_secret = typed_secret"
proof -
  have k: "CHR ''A'' \<noteq> CHR 0x00" "\<not> digit_key (CHR ''A'')"
    "CHR ''A'' \<noteq> CHR ''#''" "CHR ''A'' \<noteq> CHR ''*''"
    by (simp_all add: digit_key_def)
  have b: "currentState (boot 0) = 0" "length (inputPassword (boot 0)) < 4" by simp_all
  have t: "currentState typed_secret = 0" "length (inputPassword typed_secret) \<ge> 4"
    by (simp_all add: typed_secret_fields)
  from other_key_appended [OF b(1) k] other_key_appended [OF t(1) k] k b t
  show ?thesis by simp
qed

text \<open>
  Claim C2 as stated fails: right after start-up the key A is stored and one asterisk
  is printed.
\<close>

theorem letter_key_not_ignored:
  "currentState (boot 0) = 0 \<and> \<not> digit_key (CHR ''A'') \<and> CHR ''A'' \<noteq> CHR ''#'' \<and>
   CHR ''A'' \<noteq> CHR ''*'' \<and>
   inputPassword (loop (CHR ''A'') (boot 0)) = ''A'' \<and> inputPassword (boot 0) = [] \<and>
   trace (loop (CHR ''A'') (boot 0)) = trace (boot 0) @ [LcdSetCursor 0 1, LcdPrint ''*'']"
  by (simp add: loop_other_key digit_key_def)

text \<open>
  Claim C6. In the locked state, \<open>'#'\<close> with four stored characters different from the
  secret clears the entry, stays locked, and prints the error message with the counter
  plus one; as long as the counter does not reach \<open>MAX_ATTEMPTS\<close> with this attempt, it
  is left at exactly one more than before, and nothing else is sent to the drivers.
\<close>

theorem submit_wrong_counts:
  assumes "currentState s = 0" "length (inputPassword s) = 4" "inputPassword s \<noteq> CORRECT_PASSWORD"
  shows "inputPassword (loop (CHR ''#'') s) = [] \<and> currentState (loop (CHR ''#'') s) = 0 \<and>
         trace (loop (CHR ''#'') s) = trace s @
           [LcdClear, LcdPrint ''Error intento '', LcdPrintInt (attemptCount s + 1)] @
           (if attemptCount s + 1 \<ge> MAX_ATTEMPTS then lockout_trace else []) \<and>
         (attemptCount s + 1 < MAX_ATTEMPTS \<longrightarrow>
            attemptCount (loop (CHR ''#'') s) = attemptCount s + 1)"
  using assms by (simp add: loop_def)

theorem submit_wrong_counts_witness:
  "currentState typed_wrong = 0 \<and> length (inputPassword typed_wrong) = 4 \<and>
   inputPassword typed_wrong \<noteq> CORRECT_PASSWORD \<and>
   attemptCount typed_wrong + 1 < MAX_ATTEMPTS \<and>
   inputPassword (loop (CHR ''#'') typed_wrong) = [] \<and>
   currentState (loop (CHR ''#'') typed_wrong) = 0 \<and>
   attemptCount (loop (CHR ''#'') typed_wrong) = 1"
proof -
  have h: "currentState typed_wrong = 0" "length (inputPassword typed_wrong) = 4"
    "inputPassword typed_wrong \<noteq> CORRECT_PASSWORD"
    by (simp_all add: typed_wrong_fields CORRECT_PASSWORD_def)
  have a: "attemptCount typed_wrong + 1 < MAX_ATTEMPTS"
    by (simp add: typed_wrong_fields MAX_ATTEMPTS_def)
  from submit_wrong_counts [OF h] h a show ?thesis by (simp add: typed_wrong_fields)
qed

text \<open>
  Claim C10. In the locked state, \<open>'#'\<close> with fewer than four stored characters (none
  included) takes the branch of a wrong password: the entry is cleared, the error
  message shows the counter plus one, the counter is left at one more than before, and
  when that makes it \<open>MAX_ATTEMPTS\<close> the lockout sequence runs and the counter is back
  at 0.
\<close>

theorem submit_short_counts:
  assumes "currentState s = 0" "length (inputPassword s) < 4"
  shows "loop (CHR ''#'') s = submit_fail s \<and>
         inputPassword (loop (CHR ''#'') s) = [] \<and> currentState (loop (CHR ''#'') s) = 0 \<and>
         trace (loop (CHR ''#'') s) = trace s @
           [LcdClear, LcdPrint ''Error intento '', LcdPrintInt (attemptCount s + 1)] @
           (if attemptCount s + 1 \<ge> MAX_ATTEMPTS then lockout_trace else []) \<and>
         (attemptCount s + 1 < MAX_ATTEMPTS \<longrightarrow>
            attemptCount (loop (CHR ''#'') s) = attemptCount s + 1) \<and>
         (attemptCount s + 1 = MAX_ATTEMPTS \<longrightarrow> attemptCount (loop (CHR ''#'') s) = 0)"
  using assms by (auto simp add: loop_def)

theorem submit_short_counts_witness:
  "currentState (boot 0) = 0 \<and> length (inputPassword (boot 0)) < 4 \<and>
   attemptCount (boot 0) + 1 < MAX_ATTEMPTS \<and>
   attemptCount (loop (CHR ''#'') (boot 0)) = 1 \<and>
   inputPassword (loop (CHR ''#'') (boot 0)) = [] \<and>
   currentState two_failed = 0 \<and> length (inputPassword two_failed) < 4 \<and>
   attemptCount two_failed + 1 = MAX_ATTEMPTS \<and>
   attemptCount (loop (CHR ''#'') two_failed) = 0 \<and>
   currentState (loop (CHR ''#'') two_failed) = 0"
proof -
  have b: "currentState (boot 0) = 0" "length (inputPassword (boot 0)) < 4" by simp_all
  have t: "currentState two_failed = 0" "length (inputPassword two_failed) < 4"
    by (simp_all add: two_failed_fields)
  have a: "attemptCount (boot 0) + 1 < MAX_ATTEMPTS" "attemptCount two_failed + 1 = MAX_ATTEMPTS"
    by (simp_all add: two_failed_fields MAX_ATTEMPTS_def)
  from submit_short_counts [OF b] submit_short_counts [OF t] a b t
  show ?thesis by simp
qed

text \<open>
  Claim C9. Starting in the locked state with at most four characters stored, no
  sequence of digit keys makes \<open>inputPassword\<close> longer than four; and when four are
  stored, digit keys change nothing at all.
\<close>

theorem pin_length_bounded:
  assumes "currentState s = 0" "length (inputPassword s) \<le> 4" "\<forall>k \<in> set ks. digit_key k"
  shows "length (inputPassword (fold loop ks s)) \<le> 4 \<and>
         (length (inputPassword s) = 4 \<longrightarrow> fold loop ks s = s)"
proof
  show "length (inputPassword (fold loop ks s)) \<le> 4"
    using assms(2) by (rule fold_loop_length_le)
  show "length (inputPassword s) = 4 \<longrightarrow> fold loop ks s = s"
    using assms(3)
  proof (induction ks)
    case Nil
    show ?case by simp
  next
    case (Cons k ks)
    then have "digit_key k" by simp
    then have "k \<noteq> CHR 0x00" "k \<noteq> CHR ''#''" "k \<noteq> CHR ''*''"
      by (auto simp add: digit_key_def)
    then have "length (inputPassword s) = 4 \<Longrightarrow> loop k s = s"
      by (simp add: loop_other_key)
    with Cons show ?case by simp
  qed
qed

theorem pin_length_bounded_witness:
  "currentState (boot 0) = 0 \<and> length (inputPassword (boot 0)) \<le> 4 \<and>
   list_all digit_key ''069012'' \<and>
   length (inputPassword (fold loop ''069012'' (boot 0))) \<le> 4 \<and>
   inputPassword (fold loop ''069012'' (boot 0)) = ''0690'' \<and>
   currentState typed_secret = 0 \<and> length (inputPassword typed_secret) = 4 \<and>
   fold loop ''12'' typed_secret = typed_secret"
proof -
  have h: "currentState (boot 0) = 0" "length (inputPassword (boot 0)) \<le> 4"
    "\<forall>k \<in> set ''069012''. digit_key k"
    by (simp_all add: digit_key_def)
  have e: "inputPassword (fold loop ''069012'' (boot 0)) = ''0690''"
    by (simp add: loop_other_key)
  have t: "currentState typed_secret = 0" "length (inputPassword typed_secret) \<le> 4"
    "\<forall>k \<in> set ''12''. digit_key k" "length (inputPassword typed_secret) = 4"
    by (simp_all add: typed_secret_fields digit_key_def)
  from pin_length_bounded [OF h] pin_length_bounded [OF t(1,2,3)] h e t
  show ?thesis by (simp add: list_all_iff)
qed

text \<open>
  Claim C5. From the locked state with the counter at 0, three rounds of keys, each ended
  by \<open>'#'\<close> on an entry that is not the secret: the counter is 1 after the first and 2
  after the second, the lockout message has not been printed by then, and the third
  round prints the error message, runs the lockout sequence, and leaves the counter at 0,
  the entry empty and the state locked.
\<close>

theorem three_failures_lock_out:
  assumes "currentState s = 0" "attemptCount s = 0"
    and "CHR ''#'' \<notin> set k1" "inputPassword (fold loop k1 s) \<noteq> CORRECT_PASSWORD"
        "s1 = fold loop (k1 @ [CHR ''#'']) s"
    and "CHR ''#'' \<notin> set k2" "inputPassword (fold loop k2 s1) \<noteq> CORRECT_PASSWORD"
        "s2 = fold loop (k2 @ [CHR ''#'']) s1"
    and "CHR ''#'' \<notin> set k3" "inputPassword (fold loop k3 s2) \<noteq> CORRECT_PASSWORD"
        "s3 = fold loop (k3 @ [CHR ''#'']) s2"
  shows "attemptCount s1 = 1 \<and> attemptCount s2 = 2 \<and>
         (LcdPrint ''Bloqueado'' \<in> set (trace s2)) = (LcdPrint ''Bloqueado'' \<in> set (trace s)) \<and>
         attemptCount s3 = 0 \<and> inputPassword s3 = [] \<and> currentState s3 = 0 \<and>
         trace s3 = trace (fold loop k3 s2) @
           [LcdClear, LcdPrint ''Error intento '', LcdPrintInt 3] @ lockout_trace"
proof -
  have e1: "s1 = submit_fail (fold loop k1 s)"
    using assms(5) failed_round [OF assms(3,4)] by simp
  have e2: "s2 = submit_fail (fold loop k2 s1)"
    using assms(8) failed_round [OF assms(6,7)] by simp
  have e3: "s3 = submit_fail (fold loop k3 s2)"
    using assms(11) failed_round [OF assms(9,10)] by simp
  have a0: "attemptCount (fold loop k1 s) = 0" "currentState (fold loop k1 s) = 0"
    using assms(1,2,3) by (simp_all add: fold_loop_not_submit)
  have a1: "attemptCount s1 = 1" "currentState s1 = 0"
    using a0 by (simp_all add: e1 MAX_ATTEMPTS_def)
  have b1: "attemptCount (fold loop k2 s1) = 1" "currentState (fold loop k2 s1) = 0"
    using a1 assms(6) by (simp_all add: fold_loop_not_submit)
  have a2: "attemptCount s2 = 2" "currentState s2 = 0"
    using b1 by (simp_all add: e2 MAX_ATTEMPTS_def)
  have b2: "attemptCount (fold loop k3 s2) = 2" "currentState (fold loop k3 s2) = 0"
    using a2 assms(9) by (simp_all add: fold_loop_not_submit)
  have a3: "attemptCount s3 = 0" "inputPassword s3 = []" "currentState s3 = 0"
    "trace s3 = trace (fold loop k3 s2) @
           [LcdClear, LcdPrint ''Error intento '', LcdPrintInt 3] @ lockout_trace"
    using b2 by (simp_all add: e3 MAX_ATTEMPTS_def)
  have m1: "(LcdPrint ''Bloqueado'' \<in> set (trace s1)) = (LcdPrint ''Bloqueado'' \<in> set (trace s))"
    unfolding e1 using a0(1) fold_loop_not_submit_msg [OF assms(3), of s]
    by (simp add: MAX_ATTEMPTS_def)
  have m2: "(LcdPrint ''Bloqueado'' \<in> set (trace s2)) = (LcdPrint ''Bloqueado'' \<in> set (trace s1))"
    unfolding e2 using b1(1) fold_loop_not_submit_msg [OF assms(6), of s1]
    by (simp add: MAX_ATTEMPTS_def)
  from a1 a2 a3 m1 m2 show ?thesis by simp
qed


theorem three_failures_lock_out_witness:
  "currentState (boot 0) = 0 \<and> attemptCount (boot 0) = 0 \<and>
   CHR ''#'' \<notin> set ''1234'' \<and> inputPassword (fold loop ''1234'' (boot 0)) \<noteq> CORRECT_PASSWORD \<and>
   inputPassword (fold loop [] (fold loop ''1234#'' (boot 0))) \<noteq> CORRECT_PASSWORD \<and>
   CHR ''#'' \<notin> set ''06A'' \<and>
   inputPassword (fold loop ''06A'' (fold loop ''1234##'' (boot 0))) \<noteq> CORRECT_PASSWORD \<and>
   attemptCount (fold loop ''1234#'' (boot 0)) = 1 \<and>
   attemptCount (fold loop ''1234##'' (boot 0)) = 2 \<and>
   attemptCount (fold loop ''1234##06A#'' (boot 0)) = 0 \<and>
   inputPassword (fold loop ''1234##06A#'' (boot 0)) = [] \<and>
   currentState (fold loop ''1234##06A#'' (boot 0)) = 0"
proof -
  have h1: "CHR ''#'' \<notin> set ''1234''"
    "inputPassword (fold loop ''1234'' (boot 0)) \<noteq> CORRECT_PASSWORD"
    "fold loop ''1234#'' (boot 0) = fold loop (''1234'' @ [CHR ''#'']) (boot 0)"
    by (simp_all add: loop_other_key CORRECT_PASSWORD_def)
  have h2: "CHR ''#'' \<notin> set []"
    "inputPassword (fold loop [] (fold loop ''1234#'' (boot 0))) \<noteq> CORRECT_PASSWORD"
    "fold loop ''1234##'' (boot 0) = fold loop ([] @ [CHR ''#'']) (fold loop ''1234#'' (boot 0))"
    by (simp_all add: loop_other_key loop_submit_wrong CORRECT_PASSWORD_def)
  have h3: "CHR ''#'' \<notin> set ''06A''"
    "inputPassword (fold loop ''06A'' (fold loop ''1234##'' (boot 0))) \<noteq> CORRECT_PASSWORD"
    "fold loop ''1234##06A#'' (boot 0) =
       fold loop (''06A'' @ [CHR ''#'']) (fold loop ''1234##'' (boot 0))"
    by (simp_all add: loop_other_key loop_submit_wrong CORRECT_PASSWORD_def)
  have b: "currentState (boot 0) = 0" "attemptCount (boot 0) = 0" by simp_all
  from three_failures_lock_out [OF b h1 h2 h3] b h1(1,2) h2(2) h3(1,2) show ?thesis by simp
qed

section \<open>The monitoring states\<close>

text \<open>
  Claim C7. In state 1, a sample with the temperature below 10 or above 40, or the
  humidity below 5 or above 60, moves the state to 4 (alarm) in the same call, whatever
  the clock and \<open>stateChangeTime\<close> are, and nothing is written to the display.
\<close>

theorem out_of_range_raises_alarm:
  assumes "currentState s = 1" "dht (dhtReads s) = (h, t)"
    "flt t 10 \<or> fgt t 40 \<or> flt h 5 \<or> fgt h 60"
  shows "currentState (monitoreoAmbiental dht s) = 4 \<and>
         trace (monitoreoAmbiental dht s) = trace s \<and>
         stateChangeTime (monitoreoAmbiental dht s) = millis s \<and>
         millis (monitoreoAmbiental dht s) = millis s"
  using assms by (auto simp add: monitoreoAmbiental_def readDht_def millis_def)

theorem out_of_range_raises_alarm_witness:
  "currentState unlocked = 1 \<and> hot (dhtReads unlocked) = (Fin 30, Fin 45) \<and>
   fgt (Fin 45) 40 \<and> millis unlocked - stateChangeTime unlocked = 0 \<and>
   currentState (monitoreoAmbiental hot unlocked) = 4 \<and>
   trace (monitoreoAmbiental hot unlocked) = trace unlocked"
proof -
  have h: "currentState unlocked = 1" "hot (dhtReads unlocked) = (Fin 30, Fin 45)"
    "flt (Fin 45) 10 \<or> fgt (Fin 45) 40 \<or> flt (Fin 30) 5 \<or> fgt (Fin 30) 60"
    by (simp_all add: unlocked_fields hot_def)
  from out_of_range_raises_alarm [where s = unlocked and dht = hot, OF h] h show ?thesis
    by (simp add: unlocked_fields millis_def)
qed

text \<open>
  Claim C8. In state 2, once 3000 ms have passed since \<open>stateChangeTime\<close>, the light value
  is displayed and the state becomes 3 (alert) when the lux value is above 700 or below
  200, and 1 (environmental monitoring) otherwise; before that, the call changes nothing.
\<close>

theorem light_events_transition:
  assumes "currentState s = 2"
  shows "(millis s - stateChangeTime s \<ge> 3000 \<longrightarrow>
            currentState (monitorEventos lux_of a s) =
              (if fgt (lux_of a) 700 \<or> flt (lux_of a) 200 then 3 else 1) \<and>
            stateChangeTime (monitorEventos lux_of a s) = millis s \<and>
            trace (monitorEventos lux_of a s) = trace s @
              [LcdClear, LcdPrint ''Moni Eventos'', LcdSetCursor 0 1, LcdPrint ''Luz : '',
               LcdPrintFloat (lux_of a)]) \<and>
         (millis s - stateChangeTime s < 3000 \<longrightarrow> monitorEventos lux_of a s = s)"
  using assms by (simp add: monitorEventos_def Let_def millis_def)

theorem light_events_transition_witness:
  "currentState (in_events 6000) = 2 \<and>
   millis (in_events 6000) - stateChangeTime (in_events 6000) \<ge> 3000 \<and>
   currentState (monitorEventos (\<lambda>a. Fin 750) 100 (in_events 6000)) = 3 \<and>
   currentState (monitorEventos (\<lambda>a. Fin 450) 500 (in_events 6000)) = 1 \<and>
   millis (in_events 5000) - stateChangeTime (in_events 5000) < 3000 \<and>
   monitorEventos (\<lambda>a. Fin 750) 100 (in_events 5000) = in_events 5000"
proof -
  have h: "currentState (in_events 6000) = 2" "currentState (in_events 5000) = 2"
    by (simp_all add: in_events_def)
  have t: "millis (in_events 6000) - stateChangeTime (in_events 6000) \<ge> 3000"
    "millis (in_events 5000) - stateChangeTime (in_events 5000) < 3000"
    by (simp_all add: in_events_def millis_def unlocked_fields)
  from light_events_transition [OF h(1), of "\<lambda>a. Fin 750" 100] light_events_transition [OF h(1), of "\<lambda>a. Fin 450" 500]
    light_events_transition [OF h(2), of "\<lambda>a. Fin 750" 100] h t
  show ?thesis by simp
qed

text \<open>
  Claim C4. \<open>alarma\<close> returns if and only if some sample from the current position of the
  sensor on is in range (temperature in [10, 40] and humidity in [5, 60]). When it
  returns, it has read up to the first such sample and no further, the red LED and the
  buzzer are switched off, the state is 1 and \<open>stateChangeTime\<close> is the time of the exit.
\<close>

theorem alarma_returns_iff_in_range:
  "(alarma dht s \<noteq> None) = (\<exists>n\<ge>dhtReads s. in_range (dht n)) \<and>
   (\<forall>s'. alarma dht s = Some s' \<longrightarrow>
      currentState s' = 1 \<and> stateChangeTime s' = millis s' \<and>
      trace s' = trace s @ alarm_entry_trace @ [DigitalWrite LED_RED_PIN False, NoTone BUZZER_PIN] \<and>
      dhtReads s < dhtReads s' \<and> in_range (dht (dhtReads s' - 1)) \<and>
      (\<forall>m. dhtReads s \<le> m \<and> m < dhtReads s' - 1 \<longrightarrow> \<not> in_range (dht m)))"
proof (intro conjI allI impI)
  show "(alarma dht s \<noteq> None) = (\<exists>n\<ge>dhtReads s. in_range (dht n))"
  proof
    assume "alarma dht s \<noteq> None"
    then obtain s' where "alarma_loop dht (alarma_enter s) = Some s'"
      by (auto simp add: alarma_def)
    from alarma_loop_some [OF this] show "\<exists>n\<ge>dhtReads s. in_range (dht n)" by simp
  next
    assume "\<exists>n\<ge>dhtReads s. in_range (dht n)"
    then have "\<exists>n\<ge>dhtReads (alarma_enter s). in_range (dht n)" by simp
    from alarma_loop_first [OF this] show "alarma dht s \<noteq> None"
      by (auto simp add: alarma_def)
  qed
next
  fix s' assume r: "alarma dht s = Some s'"
  then have l: "alarma_loop dht (alarma_enter s) = Some s'" by (simp add: alarma_def)
  from alarma_loop_some [OF l] have "\<exists>n\<ge>dhtReads (alarma_enter s). in_range (dht n)" .
  from alarma_loop_first [OF this] l obtain d where
    d: "in_range (dht (dhtReads s + d))" "\<forall>m<d. \<not> in_range (dht (dhtReads s + m))"
       "s' = alarma_exit ((alarma_enter s)\<lparr>dhtReads := dhtReads s + d + 1\<rparr>)"
    by auto
  show "currentState s' = 1" by (simp add: d(3))
  show "stateChangeTime s' = millis s'" by (simp add: d(3) millis_def)
  show "trace s' = trace s @ alarm_entry_trace @ [DigitalWrite LED_RED_PIN False, NoTone BUZZER_PIN]"
    by (simp add: d(3))
  show "dhtReads s < dhtReads s'" by (simp add: d(3))
  show "in_range (dht (dhtReads s' - 1))" using d(1) by (simp add: d(3))
  fix m assume m: "dhtReads s \<le> m \<and> m < dhtReads s' - 1"
  then have "m - dhtReads s < d" by (simp add: d(3)) arith
  with d(2) have "\<not> in_range (dht (dhtReads s + (m - dhtReads s)))" by blast
  with m show "\<not> in_range (dht m)" by simp
qed

theorem alarma_returns_iff_in_range_witness:
  "currentState in_alarm = 4 \<and> in_range (recovering 2) \<and>
   alarma recovering in_alarm \<noteq> None \<and>
   currentState (the (alarma recovering in_alarm)) = 1 \<and>
   alarma broken in_alarm = None"
proof -
  have r: "dhtReads in_alarm = 1" "currentState in_alarm = 4"
    by (simp_all add: in_alarm_def monitoreoAmbiental_def readDht_def hot_def unlocked_fields)
  have i: "in_range (recovering 2)"
    by (simp add: recovering_def in_range_def)
  then have e: "\<exists>n\<ge>dhtReads in_alarm. in_range (recovering n)"
    using r by (intro exI [of _ 2]) simp
  have n: "\<not> (\<exists>n\<ge>dhtReads in_alarm. in_range (broken n))"
    by (simp add: broken_def in_range_def)
  from alarma_returns_iff_in_range [of recovering in_alarm] e have s: "alarma recovering in_alarm \<noteq> None"
    by blast
  then obtain s' where s': "alarma recovering in_alarm = Some s'" by blast
  with alarma_returns_iff_in_range [of recovering in_alarm] have c: "currentState s' = 1" by blast
  from alarma_returns_iff_in_range [of broken in_alarm] n have b: "alarma broken in_alarm = None" by blast
  from r i s s' c b show ?thesis by simp
qed

text \<open>
  Claim C3. Whatever the keys, the sensor values and the times of a run from start-up are,
  \<open>currentState\<close> is one of 0, 1, 2, 3, 4 after it: the values 5 (infrared) and 6 (Hall)
  are never reached.
\<close>

theorem infrared_hall_unreachable:
  assumes "run dht lux_of inps (boot t0) = Some s"
  shows "currentState s \<in> {0, 1, 2, 3, 4} \<and> currentState s \<noteq> 5 \<and> currentState s \<noteq> 6"
proof -
  have "currentState (boot t0) \<in> {0, 1, 2, 3, 4}" by simp
  with assms have "currentState s \<in> {0, 1, 2, 3, 4}" by (rule run_state)
  then show ?thesis by auto
qed

theorem infrared_hall_unreachable_witness:
  "run mild (\<lambda>a. Fin 750) session (boot 0) \<noteq> None \<and>
   currentState (the (run mild (\<lambda>a. Fin 750) session (boot 0))) = 3 \<and>
   currentState (the (run mild (\<lambda>a. Fin 750) session (boot 0))) \<in> {0, 1, 2, 3, 4}"
proof -
  from session_run obtain s where
    s: "run mild (\<lambda>a. Fin 750) session (boot 0) = Some s" "currentState s = 3"
    by (auto split: option.splits)
  from infrared_hall_unreachable [OF s(1)] s show ?thesis by simp
qed

end
